theory Spec2Isabelle
  imports Complex_Main "HOL-Library.Sublist" "HOL-Library.Product_Lexorder"
begin

section \<open>News sentiment (StockAnalysis.py, sentiment_and_score)\<close>

text \<open>
  Python's \<open>str.lower\<close> on the ASCII letters; every other character is left as it is.
\<close>

definition lower_chr :: "char \<Rightarrow> char" where
  "lower_chr c =
     (let n = (of_char c :: nat) in if 65 \<le> n \<and> n \<le> 90 then char_of (n + 32) else c)"

definition lower :: "string \<Rightarrow> string" where
  "lower t = map lower_chr t"

text \<open>Python's \<open>w in t\<close> on strings: \<open>w\<close> occurs in \<open>t\<close> as a contiguous run.\<close>

fun contains :: "string \<Rightarrow> string \<Rightarrow> bool" where
  "contains [] w = (w = [])"
| "contains (c # cs) w = (prefix w (c # cs) \<or> contains cs w)"

text \<open>
  The two lexicons, written as the source's set displays are (the second one lists
  \<open>loss\<close> twice). A Python set holds each element once, hence \<open>remdups\<close> below.
\<close>

definition pos_words :: "string list" where
  "pos_words = [''gain'', ''beat'', ''up'', ''strong'', ''positive'', ''record'', ''surge'',
     ''growth'', ''raise'', ''outperform'', ''upgrade'', ''profit'']"

definition neg_words :: "string list" where
  "neg_words = [''drop'', ''fall'', ''loss'', ''miss'', ''down'', ''weak'', ''decline'',
     ''warning'', ''cut'', ''recall'', ''lawsuit'', ''downgrade'', ''loss'']"

text \<open>\<open>sum(1 for w in words if w in t)\<close> over a set of words.\<close>

definition count_in :: "string list \<Rightarrow> string \<Rightarrow> int" where
  "count_in ws t = int (length (filter (contains t) (remdups ws)))"

definition sentiment_and_score :: "string \<Rightarrow> string \<times> int" where
  "sentiment_and_score text =
     (let t = lower text;
          pos = count_in pos_words t;
          neg = count_in neg_words t;
          score = pos - neg
      in if score > 0 then (''Positive'', score)
         else if score < 0 then (''Negative'', score)
         else (''Neutral'', score))"

subsection \<open>The scorer as the specification words it\<close>

definition spec_positive :: "string set" where
  "spec_positive = {''gain'', ''beat'', ''up'', ''strong'', ''positive'', ''record'', ''surge'',
     ''growth'', ''raise'', ''outperform'', ''upgrade'', ''profit''}"

definition spec_negative :: "string set" where
  "spec_negative = {''drop'', ''fall'', ''loss'', ''miss'', ''down'', ''weak'', ''decline'',
     ''warning'', ''cut'', ''recall'', ''lawsuit'', ''downgrade''}"

text \<open>A word occurs case-insensitively: some contiguous piece of the text equals it up to case.\<close>

definition occurs_ci :: "string \<Rightarrow> string \<Rightarrow> bool" where
  "occurs_ci w t = (\<exists>s. sublist s t \<and> lower s = lower w)"

definition spec_score :: "string \<Rightarrow> int" where
  "spec_score t = int (card {w \<in> spec_positive. occurs_ci w t})
                - int (card {w \<in> spec_negative. occurs_ci w t})"

definition spec_label :: "int \<Rightarrow> string" where
  "spec_label s = (if s > 0 then ''Positive'' else if s < 0 then ''Negative'' else ''Neutral'')"

section \<open>Calendar dates\<close>

text \<open>
  A bar's date is a calendar day (year, month, day); \<open>pd.to_datetime\<close> turns it into the
  timestamp of that day's midnight, so timestamps compare as the triples do
  lexicographically. The functions below give what Python's \<open>calendar\<close>, \<open>datetime\<close> and
  \<open>dateutil.relativedelta\<close> compute on valid dates inside the range of pandas timestamps,
  where no subtraction leaves the calendar.
\<close>

type_synonym date = "int \<times> nat \<times> nat"

definition isleap :: "int \<Rightarrow> bool" where
  "isleap y = (y mod 4 = 0 \<and> (y mod 100 \<noteq> 0 \<or> y mod 400 = 0))"

text \<open>The number of days of a month (\<open>calendar.monthrange(year, month)[1]\<close>).\<close>

definition monthrange :: "int \<Rightarrow> nat \<Rightarrow> nat" where
  "monthrange y m =
     (if m = 2 then (if isleap y then 29 else 28)
      else if m = 4 \<or> m = 6 \<or> m = 9 \<or> m = 11 then 30 else 31)"

text \<open>
  \<open>dt - relativedelta(years=k)\<close>: the year moves, and the day is cut to the length of the
  month reached (29 February becomes 28 February in a common year).
\<close>

definition minus_years :: "date \<Rightarrow> nat \<Rightarrow> date" where
  "minus_years dt k =
     (case dt of (y, m, d) \<Rightarrow>
        let year = y - int k in (year, m, min (monthrange year m) d))"

text \<open>
  \<open>dt - relativedelta(months=k)\<close> for \<open>1 \<le> k \<le> 12\<close>: a month below 1 borrows a year,
  and the day is cut to the length of the month reached.
\<close>

definition minus_months :: "date \<Rightarrow> nat \<Rightarrow> date" where
  "minus_months dt k =
     (case dt of (y, m, d) \<Rightarrow>
        let (year, month) = (if int m - int k < 1 then (y - 1, m + 12 - k) else (y, m - k))
        in (year, month, min (monthrange year month) d))"

text \<open>\<open>dt - relativedelta(days=k)\<close>: \<open>k\<close> steps back of one day each.\<close>

fun prev_day :: "date \<Rightarrow> date" where
  "prev_day (y, m, d) =
     (if 1 < d then (y, m, d - 1)
      else if 1 < m then (y, m - 1, monthrange y (m - 1))
      else (y - 1, 12, 31))"

definition minus_days :: "date \<Rightarrow> nat \<Rightarrow> date" where
  "minus_days dt k = (prev_day ^^ k) dt"

section \<open>The window filter (utils/plotly_figure.py, filter_data)\<close>

text \<open>
  A data frame is the list of its rows in index order; a row is its \<open>Date\<close> with the rest
  of its columns. \<open>df['Date'].iloc[-1]\<close> raises IndexError on a frame without rows.
\<close>

datatype py_error = IndexError

text \<open>The \<open>if\<close>/\<open>elif\<close> chain of \<open>filter_data\<close> that picks the cutoff, in the source's order.\<close>

definition cutoff :: "date \<Rightarrow> date \<Rightarrow> string \<Rightarrow> date" where
  "cutoff first latest num_period =
     (if num_period = ''1mo'' then minus_months latest 1
      else if num_period = ''5d'' then minus_days latest 5
      else if num_period = ''6mo'' then minus_months latest 6
      else if num_period = ''1y'' then minus_years latest 1
      else if num_period = ''5y'' then minus_years latest 5
      else if num_period = ''ytd'' then (fst latest, 1, 1)
      else if num_period = ''max'' \<or> num_period = [] then first
      else first)"

definition filter_data :: "(date \<times> 'a) list \<Rightarrow> string \<Rightarrow> py_error + (date \<times> 'a) list" where
  "filter_data df num_period =
     (if df = [] then Inl IndexError
      else let latest = fst (last df);
               c = cutoff (fst (hd df)) latest num_period
           in Inr (filter (\<lambda>row. fst row > c) df))"

text \<open>The invariant of a price series: dates strictly increasing.\<close>

definition price_series :: "(date \<times> 'a) list \<Rightarrow> bool" where
  "price_series df = sorted_wrt (<) (map fst df)"

subsection \<open>The dated windows as the specification words them\<close>

datatype window = Five_day | One_month | Six_month | Year_to_date | One_year | Five_year

text \<open>The tag each window has in \<open>quick_map\<close> of StockAnalysis.py.\<close>

fun tag :: "window \<Rightarrow> string" where
  "tag Five_day = ''5d''"
| "tag One_month = ''1mo''"
| "tag Six_month = ''6mo''"
| "tag Year_to_date = ''ytd''"
| "tag One_year = ''1y''"
| "tag Five_year = ''5y''"

definition anchor :: "(date \<times> 'a) list \<Rightarrow> date" where
  "anchor df = Max (fst ` set df)"

fun spec_cutoff :: "date \<Rightarrow> window \<Rightarrow> date" where
  "spec_cutoff a Five_day = minus_days a 5"
| "spec_cutoff a One_month = minus_months a 1"
| "spec_cutoff a Six_month = minus_months a 6"
| "spec_cutoff a One_year = minus_years a 1"
| "spec_cutoff a Five_year = minus_years a 5"
| "spec_cutoff a Year_to_date = (fst a, 1, 1)"

definition spec_filter :: "(date \<times> 'a) list \<Rightarrow> window \<Rightarrow> (date \<times> 'a) list" where
  "spec_filter df w = filter (\<lambda>row. spec_cutoff (anchor df) w < fst row) df"

section \<open>Price bars\<close>

text \<open>
  The columns of a row of the price history besides its date, as \<open>fetch_and_cache_history\<close>
  keeps them. Prices are real numbers here; the source computes with floating point numbers.
\<close>

record bar =
  Open :: real
  High :: real
  Low :: real
  Close :: real
  Volume :: nat

type_synonym price_frame = "(date \<times> bar) list"

definition closes :: "(date \<times> bar) list \<Rightarrow> real list" where
  "closes df = map (\<lambda>row. Close (snd row)) df"

section \<open>The indicator library\<close>

text \<open>
  The source computes its indicators by calling \<open>pta.rsi\<close>, \<open>pta.sma\<close> and \<open>pta.macd\<close> of the
  library pandas_ta, whose code is not part of the repository. The definitions of this
  section give these functions as the specification describes the indicator engine
  (section 4.2). An undefined position of a derived series (NaN or None in the source) is
  \<open>None\<close>.
\<close>

text \<open>
  Modelled from the spec: the up-moves and down-moves of the Close column, which the
  library derives inside \<open>pta.rsi\<close> (not in the repository). Position \<open>k\<close> holds the move
  from bar \<open>k\<close> to bar \<open>k + 1\<close>.
\<close>

definition up_moves :: "real list \<Rightarrow> real list" where
  "up_moves cs = map (\<lambda>(p, c). max (c - p) 0) (zip cs (tl cs))"

text \<open>Modelled from the spec: the down-moves, as the up-moves above (inside \<open>pta.rsi\<close>).\<close>

definition down_moves :: "real list \<Rightarrow> real list" where
  "down_moves cs = map (\<lambda>(p, c). max (p - c) 0) (zip cs (tl cs))"

text \<open>
  Modelled from the spec: the Wilder-style smoothed average over a lookback of \<open>n\<close> moves
  (inside \<open>pta.rsi\<close>, not in the repository). The first average is the mean of the first
  \<open>n\<close> moves; each later one weighs the average before it \<open>n - 1\<close> times and the new move
  once.
\<close>

fun smooth :: "nat \<Rightarrow> real \<Rightarrow> real list \<Rightarrow> real list" where
  "smooth n a [] = []"
| "smooth n a (x # xs) = (let a' = (a * real (n - 1) + x) / real n in a' # smooth n a' xs)"

text \<open>
  Modelled from the spec: the series of the smoothed averages (inside \<open>pta.rsi\<close>), empty
  when there are fewer than \<open>n\<close> moves.
\<close>

definition smoothed_avg :: "nat \<Rightarrow> real list \<Rightarrow> real list" where
  "smoothed_avg n xs =
     (if length xs < n then []
      else let seed = sum_list (take n xs) / real n in seed # smooth n seed (drop n xs))"

text \<open>
  Modelled from the spec: RSI = 100 - 100 / (1 + avg_gain / avg_loss), and RSI = 100 when
  the average loss is zero (inside \<open>pta.rsi\<close>, not in the repository).
\<close>

definition rsi_value :: "real \<Rightarrow> real \<Rightarrow> real" where
  "rsi_value avg_gain avg_loss =
     (if avg_loss = 0 then 100 else 100 - 100 / (1 + avg_gain / avg_loss))"

text \<open>
  Modelled from the spec: \<open>pta.rsi(close, length)\<close> (not in the repository). The result is
  aligned to the input, its first \<open>length\<close> positions are undefined, and a series of at most
  \<open>length\<close> bars gives an all-undefined result.
\<close>

definition pta_rsi :: "real list \<Rightarrow> nat \<Rightarrow> real option list" where
  "pta_rsi cs len =
     replicate (min len (length cs)) None
     @ map (\<lambda>(g, l). Some (rsi_value g l))
         (zip (smoothed_avg len (up_moves cs)) (smoothed_avg len (down_moves cs)))"

text \<open>
  Modelled from the spec: \<open>pta.sma(close, length)\<close> (not in the repository), the mean of
  the last \<open>period\<close> closes; the first \<open>period - 1\<close> positions are undefined, and all of them
  when the period exceeds the number of bars.
\<close>

definition pta_sma :: "real list \<Rightarrow> nat \<Rightarrow> real option list" where
  "pta_sma cs period =
     map (\<lambda>i. if Suc i < period then None
               else Some (sum_list (take period (drop (Suc i - period) cs)) / real period))
       [0 ..< length cs]"



text \<open>
  Modelled from the spec: the difference of two derived series, defined where both are
  (inside \<open>pta.macd\<close>).
\<close>

fun minus_opt :: "real option \<Rightarrow> real option \<Rightarrow> real option" where
  "minus_opt (Some a) (Some b) = Some (a - b)"
| "minus_opt _ _ = None"







section \<open>The indicator charts (utils/plotly_figure.py)\<close>

text \<open>
  A chart is the data of its traces: the dates on the x axis and one list of values for each
  trace. Colours, line styles, the guide lines and the sizes of the layout are constants
  of the source and are left out.
\<close>

text \<open>Lines 133-134 of \<open>RSI\<close>: the frame with its new column \<open>RSI\<close>.\<close>

definition RSI_frame :: "price_frame \<Rightarrow> (date \<times> bar \<times> real option) list" where
  "RSI_frame dataframe =
     map (\<lambda>((d, b), r). (d, b, r)) (zip dataframe (pta_rsi (closes dataframe) 14))"

definition RSI_column :: "(date \<times> bar \<times> real option) list \<Rightarrow> real option list" where
  "RSI_column df = map (\<lambda>row. snd (snd row)) df"

datatype rsi_result =
  Series "real option list"
| Figure "date list" "real option list"

definition RSI :: "price_frame \<Rightarrow> string \<Rightarrow> bool \<Rightarrow> py_error + rsi_result" where
  "RSI dataframe num_period return_series =
     (let df = RSI_frame dataframe
      in if return_series then Inr (Series (RSI_column df))
         else case filter_data df num_period of
                Inl e \<Rightarrow> Inl e
              | Inr df' \<Rightarrow> Inr (Figure (map fst df') (RSI_column df')))"

text \<open>\<open>Moving_average\<close>: the Close trace and the SMA trace of the filtered frame.\<close>

record ma_figure =
  ma_dates :: "date list"
  ma_close :: "real list"
  ma_sma :: "real option list"

definition SMA_frame :: "price_frame \<Rightarrow> int \<Rightarrow> (date \<times> bar \<times> real option) list" where
  "SMA_frame dataframe ma_period =
     map (\<lambda>((d, b), r). (d, b, r)) (zip dataframe (pta_sma (closes dataframe) (nat ma_period)))"

definition Moving_average :: "price_frame \<Rightarrow> string \<Rightarrow> int \<Rightarrow> py_error + ma_figure" where
  "Moving_average dataframe num_period ma_period =
     (case filter_data (SMA_frame dataframe ma_period) num_period of
        Inl e \<Rightarrow> Inl e
      | Inr df \<Rightarrow>
          Inr \<lparr> ma_dates = map fst df,
                ma_close = map (\<lambda>row. Close (fst (snd row))) df,
                ma_sma = map (\<lambda>row. snd (snd row)) df \<rparr>)"





section \<open>Alerts (StockAnalysis.py, the indicators tab)\<close>

text \<open>
  Lines 189-193: the current RSI is the last value of the series that \<open>RSI\<close> returns with
  \<open>return_series=True\<close>; any exception, such as \<open>iloc[-1]\<close> on a series without values,
  leaves it absent.
\<close>

definition current_rsi :: "price_frame \<Rightarrow> string \<Rightarrow> real option" where
  "current_rsi hist plot_period =
     (case RSI hist plot_period True of
        Inr (Series rsi_series) \<Rightarrow> (if rsi_series = [] then None else last rsi_series)
      | _ \<Rightarrow> None)"

text \<open>
  Line 195, the condition of the RSI alert. An undefined RSI fires nothing: \<open>None\<close> is
  excluded by the source's test, and a comparison with NaN is false.
\<close>

definition rsi_alert_fires :: "int \<Rightarrow> real option \<Rightarrow> bool" where
  "rsi_alert_fires rsi_alert cur =
     (rsi_alert > 0 \<and> (case cur of None \<Rightarrow> False | Some r \<Rightarrow> r \<le> real_of_int rsi_alert))"

text \<open>Line 186, the condition of the price alert.\<close>

definition price_alert_fires :: "real \<Rightarrow> real \<Rightarrow> bool" where
  "price_alert_fires price_alert last_close = (price_alert > 0 \<and> last_close \<ge> price_alert)"

text \<open>
  The messages carry the threshold and the current value, which the source formats to two
  decimal places into one string each.
\<close>

datatype alert = Price_alert real real | RSI_alert int real

text \<open>
  Lines 185-196 on a history that has bars (on an empty one the page has stopped before):
  the list \<open>triggered\<close>.
\<close>

definition alerts :: "price_frame \<Rightarrow> string \<Rightarrow> real \<Rightarrow> int \<Rightarrow> alert list" where
  "alerts hist plot_period price_alert rsi_alert =
     (let last_close = Close (snd (last hist));
          cur = current_rsi hist plot_period
      in (if price_alert_fires price_alert last_close
          then [Price_alert price_alert last_close] else [])
         @ (if rsi_alert_fires rsi_alert cur then [RSI_alert rsi_alert (the cur)] else []))"

text \<open>The last defined value of a derived series, if it has one.\<close>

definition last_defined :: "real option list \<Rightarrow> real option" where
  "last_defined s =
     (let vs = filter (\<lambda>v. v \<noteq> None) s in if vs = [] then None else last vs)"

text \<open>
  The RSI that the chart shows last: the last defined value of the trace that \<open>RSI\<close> draws
  (\<open>return_series=False\<close>), if the chart is returned and its trace has a defined value.
\<close>

definition charted_rsi :: "price_frame \<Rightarrow> string \<Rightarrow> real option" where
  "charted_rsi dataframe num_period =
     (case RSI dataframe num_period False of
        Inr (Figure xs ys) \<Rightarrow> last_defined ys
      | _ \<Rightarrow> None)"

text \<open>The series of the scenario: 20 bars, one a day, Close rising by 1 from 100.\<close>

definition rising_20 :: "price_frame" where
  "rising_20 =
     map (\<lambda>k. ((2024, 3, Suc k),
                \<lparr> Open = 100 + real k, High = 100 + real k, Low = 100 + real k,
                  Close = 100 + real k, Volume = 1000 \<rparr>))
       [0 ..< 20]"


text \<open>A series that ends on New Year's Day: 16 bars, one a day, Close rising by 1 from 100.\<close>

definition new_year_16 :: "price_frame" where
  "new_year_16 =
     map (\<lambda>k. ((if k < 15 then (2023, 12, 17 + k) else (2024, 1, 1)),
                \<lparr> Open = 100 + real k, High = 100 + real k, Low = 100 + real k,
                  Close = 100 + real k, Volume = 1000 \<rparr>))
       [0 ..< 16]"

section \<open>Sentiment: proofs\<close>

lemma contains_sublist: "contains t w = sublist w t"
  by (induction t) (simp_all add: sublist_Cons_right)

lemma sublist_map_iff: "sublist w (map f t) = (\<exists>s. sublist s t \<and> map f s = w)"
proof
  assume "sublist w (map f t)"
  then obtain ps ss where "map f t = ps @ w @ ss"
    by (auto simp: sublist_def)
  then obtain us r where t1: "t = us @ r" and r: "map f r = w @ ss"
    by (metis map_eq_append_conv)
  from r obtain vs ws where "r = vs @ ws" and "w = map f vs"
    by (metis map_eq_append_conv)
  with t1 have "t = us @ vs @ ws" and "w = map f vs"
    by simp_all
  then show "\<exists>s. sublist s t \<and> map f s = w"
    by (auto simp: sublist_def)
next
  assume "\<exists>s. sublist s t \<and> map f s = w"
  then show "sublist w (map f t)"
    by (auto simp: sublist_def) blast
qed

lemma lower_pos_words: "w \<in> set pos_words \<Longrightarrow> lower w = w"
  unfolding pos_words_def by (auto; code_simp)

lemma lower_neg_words: "w \<in> set neg_words \<Longrightarrow> lower w = w"
  unfolding neg_words_def by (auto; code_simp)

lemma contains_lower_occurs:
  "lower w = w \<Longrightarrow> contains (lower t) w = occurs_ci w t"
  by (simp add: contains_sublist occurs_ci_def lower_def sublist_map_iff)

lemma count_in_card: "count_in ws t = int (card {w \<in> set ws. contains t w})"
proof -
  have "length (filter (contains t) (remdups ws)) = card (set (filter (contains t) (remdups ws)))"
    by (rule distinct_card [symmetric]) simp
  also have "set (filter (contains t) (remdups ws)) = {w \<in> set ws. contains t w}"
    by auto
  finally show ?thesis
    by (simp add: count_in_def)
qed

lemma count_in_occurs:
  assumes "\<And>w. w \<in> set ws \<Longrightarrow> lower w = w"
  shows "count_in ws (lower t) = int (card {w \<in> set ws. occurs_ci w t})"
proof -
  have "{w \<in> set ws. contains (lower t) w} = {w \<in> set ws. occurs_ci w t}"
    using assms by (auto simp: contains_lower_occurs)
  then show ?thesis
    by (simp add: count_in_card)
qed

lemma set_pos_words: "set pos_words = spec_positive"
  by (simp add: pos_words_def spec_positive_def)

lemma set_neg_words: "set neg_words = spec_negative"
  by (auto simp: neg_words_def spec_negative_def)

lemma sentiment_refines:
  "sentiment_and_score t = (spec_label (spec_score t), spec_score t)"
proof -
  have p: "count_in pos_words (lower t) = int (card {w \<in> spec_positive. occurs_ci w t})"
    using count_in_occurs [of pos_words t] lower_pos_words by (simp add: set_pos_words)
  have n: "count_in neg_words (lower t) = int (card {w \<in> spec_negative. occurs_ci w t})"
    using count_in_occurs [of neg_words t] lower_neg_words by (simp add: set_neg_words)
  show ?thesis
    unfolding sentiment_and_score_def spec_score_def spec_label_def Let_def p n by simp
qed

text \<open>
  C9. For every text, the score is the number of positive lexicon words that occur in the
  text case-insensitively as substrings minus the number of negative lexicon words that do,
  and the label is Positive, Negative or Neutral by the sign of the score. In particular
  "strong growth" scores (Positive, 2), "recall lawsuit" scores (Negative, -2) and
  "the stock moved" scores (Neutral, 0).
\<close>

theorem C9_sentiment_score:
  "sentiment_and_score t = (spec_label (spec_score t), spec_score t)
   \<and> sentiment_and_score ''strong growth'' = (''Positive'', 2)
   \<and> sentiment_and_score ''recall lawsuit'' = (''Negative'', - 2)
   \<and> sentiment_and_score ''the stock moved'' = (''Neutral'', 0)"
proof -
  have a: "sentiment_and_score ''strong growth'' = (''Positive'', 2)"
    by code_simp
  have b: "sentiment_and_score ''recall lawsuit'' = (''Negative'', - 2)"
    by code_simp
  have c: "sentiment_and_score ''the stock moved'' = (''Neutral'', 0)"
    by code_simp
  show ?thesis
    using sentiment_refines [of t] a b c by simp
qed

section \<open>The window filter: proofs\<close>

lemma sorted_le_last: "sorted xs \<Longrightarrow> x \<in> set xs \<Longrightarrow> x \<le> last xs"
  by (induction xs) auto

lemma last_is_anchor:
  assumes "price_series df" and "df \<noteq> []"
  shows "fst (last df) = anchor df"
proof -
  have s: "sorted (map fst df)"
    using assms(1) by (simp add: price_series_def strict_sorted_imp_sorted)
  have "\<And>d. d \<in> set (map fst df) \<Longrightarrow> d \<le> last (map fst df)"
    using s by (rule sorted_le_last)
  moreover have "last (map fst df) \<in> set (map fst df)"
    using assms(2) by (metis last_in_set map_is_Nil_conv)
  ultimately have "Max (set (map fst df)) = last (map fst df)"
    by (intro Max_eqI) auto
  then show ?thesis
    using assms(2) by (simp add: anchor_def last_map)
qed

lemma cutoff_tag: "cutoff first latest (tag w) = spec_cutoff latest w"
  by (cases w) (simp_all add: cutoff_def)

text \<open>
  C3. For a non-empty price series and each dated window (5-day, 1-month, 6-month, 1-year,
  5-year, year-to-date), the filter returns exactly the bars whose date is strictly after
  the cutoff, so a bar dated at the cutoff is left out; the cutoff is taken from the anchor,
  the latest date of the series: the anchor minus 5 days, minus 1 or 6 calendar months,
  minus 1 or 5 calendar years, or 1 January of the anchor's year.
\<close>

theorem C3_dated_window_filter:
  assumes "price_series df" and "df \<noteq> []"
  shows "filter_data df (tag w) = Inr (spec_filter df w)
         \<and> set (spec_filter df w) = {row \<in> set df. spec_cutoff (anchor df) w < fst row}
         \<and> (\<forall>row \<in> set (spec_filter df w). fst row \<noteq> spec_cutoff (anchor df) w)"
proof -
  have "filter_data df (tag w) = Inr (spec_filter df w)"
    using assms by (simp add: filter_data_def spec_filter_def cutoff_tag last_is_anchor)
  moreover have "set (spec_filter df w) = {row \<in> set df. spec_cutoff (anchor df) w < fst row}"
    by (simp add: spec_filter_def)
  moreover have "\<forall>row \<in> set (spec_filter df w). fst row \<noteq> spec_cutoff (anchor df) w"
    by (auto simp: spec_filter_def)
  ultimately show ?thesis
    by blast
qed

theorem C3_dated_window_filter_witness:
  "filter_data [((2024, 1, 2), 10 :: nat), ((2024, 1, 29), 11), ((2024, 2, 3), 12)] (tag Five_day)
     = Inr [((2024, 2, 3), 12)]"
proof -
  let ?df = "[((2024, 1, 2), 10 :: nat), ((2024, 1, 29), 11), ((2024, 2, 3), 12)]"
  have p: "price_series ?df"
    by (simp add: price_series_def)
  have n: "?df \<noteq> []"
    by simp
  have f: "spec_filter ?df Five_day = [((2024, 2, 3), 12)]"
    by code_simp
  show ?thesis
    using C3_dated_window_filter [OF p n, of Five_day] unfolding f by blast
qed

text \<open>
  C7. For a non-empty price series and window tags W1 and W2 such that the cutoff of W1 is
  not before the cutoff of W2, the series filtered with W1 is a subsequence of the series
  filtered with W2.
\<close>

theorem C7_window_monotone:
  assumes "df \<noteq> []"
    and "cutoff (fst (hd df)) (fst (last df)) w2 \<le> cutoff (fst (hd df)) (fst (last df)) w1"
  shows "\<exists>xs ys. filter_data df w1 = Inr xs \<and> filter_data df w2 = Inr ys \<and> subseq xs ys"
proof -
  let ?c1 = "cutoff (fst (hd df)) (fst (last df)) w1"
  let ?c2 = "cutoff (fst (hd df)) (fst (last df)) w2"
  have "filter (\<lambda>row. ?c1 < fst row) (filter (\<lambda>row. ?c2 < fst row) df)
        = filter (\<lambda>row. ?c1 < fst row) df"
    using assms(2) by (auto intro: filter_cong)
  then have "subseq (filter (\<lambda>row. ?c1 < fst row) df) (filter (\<lambda>row. ?c2 < fst row) df)"
    by (metis subseq_filter_left)
  then show ?thesis
    using assms(1) by (simp add: filter_data_def)
qed

theorem C7_window_monotone_witness:
  "\<exists>xs ys. filter_data [((2024, 1, 2), 10 :: nat), ((2024, 1, 29), 11), ((2024, 2, 3), 12)] ''5d'' = Inr xs
     \<and> filter_data [((2024, 1, 2), 10 :: nat), ((2024, 1, 29), 11), ((2024, 2, 3), 12)] ''1mo'' = Inr ys
     \<and> subseq xs ys"
proof -
  let ?df = "[((2024, 1, 2), 10 :: nat), ((2024, 1, 29), 11), ((2024, 2, 3), 12)]"
  have n: "?df \<noteq> []"
    by simp
  have c5: "cutoff (fst (hd ?df)) (fst (last ?df)) ''5d'' = (2024, 1, 29)"
    by code_simp
  have c1: "cutoff (fst (hd ?df)) (fst (last ?df)) ''1mo'' = (2024, 1, 3)"
    by code_simp
  have le: "cutoff (fst (hd ?df)) (fst (last ?df)) ''1mo'' \<le> cutoff (fst (hd ?df)) (fst (last ?df)) ''5d''"
    unfolding c5 c1 by simp
  show ?thesis
    using C7_window_monotone [OF n le] .
qed

text \<open>
  C2. The claim: with the tag "max", the empty tag of a custom range or an unrecognised tag,
  the filter returns every bar of a non-empty series, the earliest one included. The
  source takes the earliest date as the cutoff and keeps the dates strictly after it, so
  the earliest bar is dropped: on a series of two bars only the second is returned.
\<close>

theorem C2_max_drops_earliest_bar:
  "filter_data [((2024, 1, 2), 10 :: nat), ((2024, 1, 3), 11)] ''max'' = Inr [((2024, 1, 3), 11)]
   \<and> filter_data [((2024, 1, 2), 10 :: nat), ((2024, 1, 3), 11)] [] = Inr [((2024, 1, 3), 11)]
   \<and> filter_data [((2024, 1, 2), 10 :: nat), ((2024, 1, 3), 11)] ''2y'' = Inr [((2024, 1, 3), 11)]"
  by (simp add: filter_data_def cutoff_def)

lemma filter_data_max_drops_first:
  assumes "price_series df" and "df \<noteq> []"
    and "t \<notin> {''1mo'', ''5d'', ''6mo'', ''1y'', ''5y'', ''ytd''}"
  shows "filter_data df t = Inr (tl df)"
proof -
  obtain r rs where df: "df = r # rs"
    using assms(2) by (cases df) auto
  have c: "cutoff (fst (hd df)) (fst (last df)) t = fst r"
    using assms(3) df by (auto simp: cutoff_def)
  have "\<forall>x \<in> set rs. fst r < fst x"
    using assms(1) df by (auto simp: price_series_def)
  then have "filter (\<lambda>row. fst r < fst row) rs = rs"
    by (simp add: filter_id_conv)
  then show ?thesis
    using c df by (simp add: filter_data_def)
qed

section \<open>RSI and the RSI alert: proofs\<close>

lemma length_smooth: "length (smooth n a xs) = length xs"
  by (induction xs arbitrary: a) (simp_all add: Let_def)

lemma length_smoothed_avg:
  "length (smoothed_avg n xs) = (if length xs < n then 0 else Suc (length xs - n))"
  by (simp add: smoothed_avg_def Let_def length_smooth)

lemma length_up_moves: "length (up_moves cs) = length cs - 1"
  by (simp add: up_moves_def)

lemma length_down_moves: "length (down_moves cs) = length cs - 1"
  by (simp add: down_moves_def)

lemma length_pta_rsi: "0 < len \<Longrightarrow> length (pta_rsi cs len) = length cs"
  by (auto simp: pta_rsi_def length_smoothed_avg length_up_moves length_down_moves)

lemma pta_rsi_undefined: "i < len \<Longrightarrow> i < length cs \<Longrightarrow> pta_rsi cs len ! i = None"
  by (simp add: pta_rsi_def nth_append)

lemma pta_rsi_defined:
  assumes "0 < len" and "len \<le> i" and "i < length cs"
  shows "pta_rsi cs len ! i =
         Some (rsi_value (smoothed_avg len (up_moves cs) ! (i - len))
                         (smoothed_avg len (down_moves cs) ! (i - len)))"
proof -
  have "i - len < length (smoothed_avg len (up_moves cs))"
    and "i - len < length (smoothed_avg len (down_moves cs))"
    using assms by (auto simp: length_smoothed_avg length_up_moves length_down_moves)
  then show ?thesis
    using assms by (simp add: pta_rsi_def nth_append)
qed

lemma smooth_nonneg:
  "0 \<le> a \<Longrightarrow> (\<And>x. x \<in> set xs \<Longrightarrow> 0 \<le> x) \<Longrightarrow> y \<in> set (smooth n a xs) \<Longrightarrow> 0 \<le> y"
proof (induction xs arbitrary: a)
  case Nil
  then show ?case by simp
next
  case (Cons x xs)
  let ?a' = "(a * real (n - 1) + x) / real n"
  have x: "0 \<le> x"
    using Cons.prems(2) by simp
  have "0 \<le> a * real (n - 1)"
    using Cons.prems(1) by simp
  then have a': "0 \<le> ?a'"
    using x by (intro divide_nonneg_nonneg add_nonneg_nonneg) simp_all
  from Cons.prems(3) have "y = ?a' \<or> y \<in> set (smooth n ?a' xs)"
    by (simp add: Let_def)
  then show ?case
  proof
    assume "y = ?a'"
    then show ?thesis using a' by simp
  next
    assume y: "y \<in> set (smooth n ?a' xs)"
    have "\<And>z. z \<in> set xs \<Longrightarrow> 0 \<le> z"
      using Cons.prems(2) by simp
    then show ?thesis
      using Cons.IH [OF a' _ y] by blast
  qed
qed
lemma smoothed_avg_nonneg:
  assumes "\<And>x. x \<in> set xs \<Longrightarrow> 0 \<le> x" and "y \<in> set (smoothed_avg n xs)"
  shows "0 \<le> y"
proof (cases "length xs < n")
  case True
  then show ?thesis using assms(2) by (simp add: smoothed_avg_def)
next
  case False
  let ?seed = "sum_list (take n xs) / real n"
  have t: "\<And>x. x \<in> set (take n xs) \<Longrightarrow> 0 \<le> x"
    using assms(1) by (blast dest: in_set_takeD)
  have d: "\<And>x. x \<in> set (drop n xs) \<Longrightarrow> 0 \<le> x"
    using assms(1) by (blast dest: in_set_dropD)
  have "0 \<le> sum_list (take n xs)"
    using t by (rule sum_list_nonneg)
  then have s: "0 \<le> ?seed"
    by (intro divide_nonneg_nonneg) simp_all
  have "y = ?seed \<or> y \<in> set (smooth n ?seed (drop n xs))"
    using assms(2) False by (simp add: smoothed_avg_def Let_def)
  then show ?thesis
    using s smooth_nonneg [OF s d] by blast
qed
lemma up_moves_nonneg: "x \<in> set (up_moves cs) \<Longrightarrow> 0 \<le> x"
  by (auto simp: up_moves_def)
lemma down_moves_nonneg: "x \<in> set (down_moves cs) \<Longrightarrow> 0 \<le> x"
  by (auto simp: down_moves_def)
lemma rsi_value_bounds:
  assumes "0 \<le> g" and "0 \<le> l"
  shows "0 \<le> rsi_value g l \<and> rsi_value g l \<le> 100"
proof (cases "l = 0")
  case True
  then show ?thesis by (simp add: rsi_value_def)
next
  case False
  define q where "q = 1 + g / l"
  have "0 \<le> g / l"
    using assms by simp
  then have q1: "1 \<le> q"
    by (simp add: q_def)
  then have "0 \<le> 100 / q"
    by simp
  moreover have "100 / q \<le> 100"
    using q1 by (simp add: pos_divide_le_eq)
  ultimately show ?thesis
    using False by (simp add: rsi_value_def q_def)
qed

lemma pta_rsi_bounds:
  assumes "Some r \<in> set (pta_rsi cs len)"
  shows "0 \<le> r \<and> r \<le> 100"
proof -
  from assms obtain g l where gl: "(g, l) \<in> set (zip (smoothed_avg len (up_moves cs))
      (smoothed_avg len (down_moves cs)))" and r: "r = rsi_value g l"
    by (auto simp: pta_rsi_def)
  have "g \<in> set (smoothed_avg len (up_moves cs))"
    using gl by (rule set_zip_leftD)
  then have "0 \<le> g"
    by (rule smoothed_avg_nonneg [rotated]) (rule up_moves_nonneg)
  moreover have "l \<in> set (smoothed_avg len (down_moves cs))"
    using gl by (rule set_zip_rightD)
  then have "0 \<le> l"
    by (rule smoothed_avg_nonneg [rotated]) (rule down_moves_nonneg)
  ultimately show ?thesis
    unfolding r by (rule rsi_value_bounds)
qed
lemma length_closes: "length (closes df) = length df"
  by (simp add: closes_def)

lemma RSI_column_frame: "RSI_column (RSI_frame df) = pta_rsi (closes df) 14"
proof -
  have "length df = length (pta_rsi (closes df) 14)"
    by (simp add: length_pta_rsi length_closes)
  then have "map snd (zip df (pta_rsi (closes df) 14)) = pta_rsi (closes df) 14"
    by simp
  moreover have "RSI_column (RSI_frame df) = map snd (zip df (pta_rsi (closes df) 14))"
    by (simp add: RSI_column_def RSI_frame_def case_prod_unfold)
  ultimately show ?thesis
    by simp
qed


lemma RSI_series: "RSI df num_period True = Inr (Series (pta_rsi (closes df) 14))"
  by (simp add: RSI_def RSI_column_frame)

lemma current_rsi_eq:
  "current_rsi df num_period =
     (if df = [] then None else last (pta_rsi (closes df) 14))"
proof -
  have "pta_rsi (closes df) 14 = [] \<longleftrightarrow> df = []"
    using length_pta_rsi [of 14 "closes df"] length_closes [of df]
    by (metis length_0_conv zero_less_numeral)
  then show ?thesis
    by (simp add: current_rsi_def RSI_series)
qed

text \<open>
  C5. For every price series of at least 15 bars, the RSI(14) series is aligned to the
  input, its first 14 positions are undefined, every later position holds
  100 - 100 / (1 + avg_gain / avg_loss) of the Wilder-smoothed average gain and loss (100
  when the average loss is zero), and every defined value lies between 0 and 100.
\<close>

theorem C5_rsi_bounds:
  assumes "15 \<le> length df"
  shows "\<exists>s. RSI df num_period True = Inr (Series s) \<and> length s = length df
           \<and> (\<forall>i < length df.
                 (i < 14 \<longrightarrow> s ! i = None)
               \<and> (14 \<le> i \<longrightarrow>
                    s ! i = Some (rsi_value
                                   (smoothed_avg 14 (up_moves (closes df)) ! (i - 14))
                                   (smoothed_avg 14 (down_moves (closes df)) ! (i - 14))))
               \<and> (\<forall>r. s ! i = Some r \<longrightarrow> 0 \<le> r \<and> r \<le> 100))"
proof -
  let ?s = "pta_rsi (closes df) 14"
  have len: "length ?s = length df"
    by (simp add: length_pta_rsi length_closes)
  have "(i < 14 \<longrightarrow> ?s ! i = None)
      \<and> (14 \<le> i \<longrightarrow>
           ?s ! i = Some (rsi_value
                          (smoothed_avg 14 (up_moves (closes df)) ! (i - 14))
                          (smoothed_avg 14 (down_moves (closes df)) ! (i - 14))))
      \<and> (\<forall>r. ?s ! i = Some r \<longrightarrow> 0 \<le> r \<and> r \<le> 100)" if "i < length df" for i
  proof -
    have "?s ! i \<in> set ?s"
      using that len by simp
    then have "\<forall>r. ?s ! i = Some r \<longrightarrow> 0 \<le> r \<and> r \<le> 100"
      by (metis pta_rsi_bounds)
    then show ?thesis
      using that by (simp add: pta_rsi_undefined pta_rsi_defined length_closes)
  qed
  then show ?thesis
    using len RSI_series by blast
qed

theorem C5_rsi_bounds_witness:
  "\<exists>s. RSI rising_20 ''1y'' True = Inr (Series s) \<and> length s = 20
      \<and> s ! 13 = None \<and> s ! 19 = Some 100"
proof -
  have l: "15 \<le> length rising_20"
    by (simp add: rising_20_def)
  have v: "RSI rising_20 ''1y'' True
           = Inr (Series (replicate 14 None @ replicate 6 (Some 100)))"
    by code_simp
  obtain s where s: "RSI rising_20 ''1y'' True = Inr (Series s)"
    and n: "length s = length rising_20"
    using C5_rsi_bounds [OF l, of "''1y''"] by blast
  have "s = replicate 14 None @ replicate 6 (Some 100)"
    using s v by simp
  then have "s ! 13 = None" and "s ! 19 = Some 100"
    by (simp_all add: nth_append)
  moreover have "length s = 20"
    using n by (simp add: rising_20_def)
  ultimately show ?thesis
    using s by blast
qed

text \<open>
  C6. On a series of 20 bars whose Close rises by 1 a day from 100, the RSI(14) of the
  final bar is 100; the RSI alert, which fires when its threshold is positive and the
  latest RSI is defined and at most the threshold, does not fire at threshold 50 and fires
  at threshold 100.
\<close>

theorem C6_rising_series_alert:
  assumes "closes df = map real [100 ..< 120]"
  shows "current_rsi df plot_period = Some 100
         \<and> \<not> rsi_alert_fires 50 (current_rsi df plot_period)
         \<and> rsi_alert_fires 100 (current_rsi df plot_period)
         \<and> alerts df plot_period 0 50 = []
         \<and> alerts df plot_period 0 100 = [RSI_alert 100 100]"
proof -
  have "length df = 20"
    using length_closes [of df] assms by simp
  then have ne: "df \<noteq> []"
    by auto
  have "last (pta_rsi (map real [100 ..< 120]) 14) = Some 100"
    by code_simp
  then have c: "current_rsi df plot_period = Some 100"
    using ne assms by (simp add: current_rsi_eq)
  show ?thesis
    unfolding c by (simp add: rsi_alert_fires_def alerts_def c price_alert_fires_def)
qed

theorem C6_rising_series_alert_witness:
  "closes rising_20 = map real [100 ..< 120]
   \<and> current_rsi rising_20 ''1y'' = Some 100
   \<and> alerts rising_20 ''1y'' 0 50 = []
   \<and> alerts rising_20 ''1y'' 0 100 = [RSI_alert 100 100]"
proof -
  have h: "closes rising_20 = map real [100 ..< 120]"
    by code_simp
  show ?thesis
    using C6_rising_series_alert [OF h, of "''1y''"] h by simp
qed

lemma last_defined_shape:
  "last_defined (replicate k None @ map Some zs) = (if zs = [] then None else Some (last zs))"
proof -
  have "filter (\<lambda>v. v \<noteq> None) (replicate k None @ map Some zs) = map Some zs"
    by (simp add: filter_map comp_def)
  then show ?thesis
    by (simp add: last_defined_def last_map)
qed

lemma last_shape:
  "(if replicate k None @ map Some zs = [] then None else last (replicate k None @ map Some zs))
   = (if zs = [] then None else Some (last zs))"
  by (cases zs rule: rev_cases) (auto simp: last_map)

lemma pta_rsi_shape: "\<exists>k zs. pta_rsi cs len = replicate k None @ map Some zs"
proof -
  let ?z = "zip (smoothed_avg len (up_moves cs)) (smoothed_avg len (down_moves cs))"
  have "pta_rsi cs len = replicate (min len (length cs)) None
          @ map Some (map (\<lambda>(g, l). rsi_value g l) ?z)"
    by (simp add: pta_rsi_def case_prod_unfold comp_def)
  then show ?thesis
    by blast
qed

text \<open>The alert reads the last defined value of the RSI column of the whole frame.\<close>

lemma current_rsi_last_defined:
  "current_rsi df num_period = last_defined (RSI_column (RSI_frame df))"
proof -
  obtain k zs where s: "pta_rsi (closes df) 14 = replicate k None @ map Some zs"
    using pta_rsi_shape by blast
  have "pta_rsi (closes df) 14 = [] \<longleftrightarrow> df = []"
    using length_pta_rsi [of 14 "closes df"] length_closes [of df]
    by (metis length_0_conv zero_less_numeral)
  then have "current_rsi df num_period
      = (if pta_rsi (closes df) 14 = [] then None else last (pta_rsi (closes df) 14))"
    by (simp add: current_rsi_eq)
  also have "\<dots> = last_defined (pta_rsi (closes df) 14)"
    unfolding s by (simp only: last_shape last_defined_shape)
  finally show ?thesis
    by (simp add: RSI_column_frame)
qed

text \<open>
  C10. With return_series=True the result of RSI does not depend on the window tag: for any
  two tags it is the same series, the RSI(14) of the whole unwindowed input, one value for
  each bar, so the current RSI of the alert is the value at the last bar of the series
  whatever window the chart shows.
\<close>

theorem C10_series_ignores_window:
  "RSI df p1 True = RSI df p2 True
   \<and> RSI df p1 True = Inr (Series (pta_rsi (closes df) 14))
   \<and> length (pta_rsi (closes df) 14) = length df
   \<and> current_rsi df p1 = current_rsi df p2
   \<and> current_rsi df p1 = (if df = [] then None else pta_rsi (closes df) 14 ! (length df - 1))"
proof -
  have len: "length (pta_rsi (closes df) 14) = length df"
    by (simp add: length_pta_rsi length_closes)
  have "df \<noteq> [] \<Longrightarrow> last (pta_rsi (closes df) 14) = pta_rsi (closes df) 14 ! (length df - 1)"
    using len by (metis last_conv_nth length_0_conv)
  then show ?thesis
    using len by (simp add: RSI_series current_rsi_eq)
qed

section \<open>The moving average: proofs\<close>

lemma length_pta_sma: "length (pta_sma cs period) = length cs"
  by (simp add: pta_sma_def)

lemma pta_sma_short:
  assumes "length cs < period"
  shows "pta_sma cs period = replicate (length cs) None"
proof -
  have "pta_sma cs period = map (\<lambda>i. None) [0 ..< length cs]"
    unfolding pta_sma_def using assms by (intro map_cong) auto
  then show ?thesis
    by (simp add: map_replicate_const)
qed

lemma SMA_column_frame:
  "map (\<lambda>row. snd (snd row)) (SMA_frame df ma_period) = pta_sma (closes df) (nat ma_period)"
proof -
  have "length df = length (pta_sma (closes df) (nat ma_period))"
    by (simp add: length_pta_sma length_closes)
  then have "map snd (zip df (pta_sma (closes df) (nat ma_period)))
             = pta_sma (closes df) (nat ma_period)"
    by simp
  moreover have "map (\<lambda>row. snd (snd row)) (SMA_frame df ma_period)
                 = map snd (zip df (pta_sma (closes df) (nat ma_period)))"
    by (simp add: SMA_frame_def case_prod_unfold)
  ultimately show ?thesis
    by simp
qed

lemma SMA_frame_empty: "SMA_frame df ma_period = [] \<longleftrightarrow> df = []"
proof -
  have "length (SMA_frame df ma_period) = length df"
    by (simp add: SMA_frame_def length_pta_sma length_closes)
  then show ?thesis
    by (metis length_0_conv)
qed

text \<open>
  C8. For every price series and every period that exceeds the number of its bars, every
  position of the SMA series is undefined, and nothing is raised: the SMA column of the
  frame is undefined throughout, and on a series that has bars the chart is returned, with
  an SMA trace that is undefined throughout.
\<close>

theorem C8_sma_insufficient_data:
  assumes "int (length df) < ma_period"
  shows "pta_sma (closes df) (nat ma_period) = replicate (length df) None
         \<and> map (\<lambda>row. snd (snd row)) (SMA_frame df ma_period) = replicate (length df) None
         \<and> (df \<noteq> [] \<longrightarrow>
              (\<exists>fig. Moving_average df num_period ma_period = Inr fig
                     \<and> set (ma_sma fig) \<subseteq> {None}))"
proof -
  have "length (closes df) < nat ma_period"
    using assms by (simp add: length_closes)
  then have s: "pta_sma (closes df) (nat ma_period) = replicate (length df) None"
    using pta_sma_short [of "closes df" "nat ma_period"] by (simp add: length_closes)
  then have c: "map (\<lambda>row. snd (snd row)) (SMA_frame df ma_period) = replicate (length df) None"
    by (simp add: SMA_column_frame)
  have "\<exists>fig. Moving_average df num_period ma_period = Inr fig \<and> set (ma_sma fig) \<subseteq> {None}"
    if "df \<noteq> []"
  proof -
    let ?c = "cutoff (fst (hd (SMA_frame df ma_period))) (fst (last (SMA_frame df ma_period)))
                num_period"
    let ?w = "filter (\<lambda>row. ?c < fst row) (SMA_frame df ma_period)"
    have "filter_data (SMA_frame df ma_period) num_period = Inr ?w"
      using that by (simp add: filter_data_def SMA_frame_empty)
    then have m: "Moving_average df num_period ma_period
        = Inr \<lparr> ma_dates = map fst ?w,
                ma_close = map (\<lambda>row. Close (fst (snd row))) ?w,
                ma_sma = map (\<lambda>row. snd (snd row)) ?w \<rparr>"
      by (simp add: Moving_average_def)
    have "set (map (\<lambda>row. snd (snd row)) ?w)
          \<subseteq> set (map (\<lambda>row. snd (snd row)) (SMA_frame df ma_period))"
      by auto
    also have "\<dots> \<subseteq> {None}"
      by (simp only: c) auto
    finally show ?thesis
      using m by simp
  qed
  then show ?thesis
    using s c by blast
qed

theorem C8_sma_insufficient_data_witness:
  "Moving_average rising_20 ''5d'' 50
   = Inr \<lparr> ma_dates = [(2024, 3, 16), (2024, 3, 17), (2024, 3, 18), (2024, 3, 19), (2024, 3, 20)],
           ma_close = [115, 116, 117, 118, 119],
           ma_sma = [None, None, None, None, None] \<rparr>
   \<and> pta_sma (closes rising_20) (nat 50) = replicate (length rising_20) None"
proof -
  have l: "int (length rising_20) < 50"
    by (simp add: rising_20_def)
  have m: "Moving_average rising_20 ''5d'' 50
     = Inr \<lparr> ma_dates = [(2024, 3, 16), (2024, 3, 17), (2024, 3, 18), (2024, 3, 19), (2024, 3, 20)],
             ma_close = [115, 116, 117, 118, 119],
             ma_sma = [None, None, None, None, None] \<rparr>"
    by code_simp
  show ?thesis
    using C8_sma_insufficient_data [OF l, of "''5d''"] m by simp
qed
section \<open>MACD: proofs\<close>








lemma minus_opt_Some: "minus_opt a b = Some c \<longleftrightarrow> (\<exists>x y. a = Some x \<and> b = Some y \<and> c = x - y)"
  by (cases a; cases b) auto










section \<open>The window of the RSI chart: proofs\<close>

lemma prev_day_less: "prev_day d < d"
  by (cases d) auto

lemma minus_days_less: "0 < k \<Longrightarrow> minus_days d k < d"
proof (induction k)
  case 0
  then show ?case by simp
next
  case (Suc k)
  show ?case
  proof (cases "k = 0")
    case True
    then show ?thesis by (simp add: minus_days_def prev_day_less)
  next
    case False
    then have "minus_days d k < d"
      using Suc.IH by simp
    moreover have "minus_days d (Suc k) < minus_days d k"
      by (simp add: minus_days_def prev_day_less)
    ultimately show ?thesis
      by (rule less_trans [rotated])
  qed
qed

lemma minus_months_less: "0 < k \<Longrightarrow> minus_months d k < d"
  by (cases d) (auto simp: minus_months_def Let_def)

lemma minus_years_less: "0 < k \<Longrightarrow> minus_years d k < d"
  by (cases d) (auto simp: minus_years_def Let_def)

lemma cutoff_before_latest:
  assumes "num_period \<in> {''5d'', ''1mo'', ''6mo'', ''1y'', ''5y''}"
  shows "cutoff first latest num_period < latest"
  using assms
  by (auto simp: cutoff_def minus_days_less minus_months_less minus_years_less)

lemma last_defined_snoc: "last_defined (xs @ [Some z]) = Some z"
  by (simp add: last_defined_def)

lemma last_defined_undefined: "set xs \<subseteq> {None} \<Longrightarrow> last_defined xs = None"
proof -
  assume "set xs \<subseteq> {None}"
  then have "filter (\<lambda>v. v \<noteq> None) xs = []"
    by (auto simp: filter_empty_conv)
  then show ?thesis
    by (simp add: last_defined_def)
qed

lemma last_defined_window:
  assumes "map col F = replicate k None @ map Some zs" and "F \<noteq> []" and "P (last F)"
  shows "last_defined (map col (filter P F)) = last_defined (map col F)"
proof (cases "zs = []")
  case True
  then have "set (map col F) \<subseteq> {None}"
    using assms(1) by auto
  moreover have "set (map col (filter P F)) \<subseteq> set (map col F)"
    by auto
  ultimately show ?thesis
    by (metis last_defined_undefined subset_trans)
next
  case False
  obtain G r where F: "F = G @ [r]"
    using assms(2) by (metis append_butlast_last_id)
  have "last (map col F) = Some (last zs)"
    using assms(1) False by (simp add: last_map)
  then have c: "col r = Some (last zs)"
    using F by simp
  have "map col (filter P F) = map col (filter P G) @ [Some (last zs)]"
    using F assms(3) c by simp
  moreover have "map col F = map col G @ [Some (last zs)]"
    using F c by simp
  ultimately show ?thesis
    by (simp only: last_defined_snoc)
qed

lemma RSI_frame_dates: "map fst (RSI_frame df) = map fst df"
proof -
  have "length df = length (pta_rsi (closes df) 14)"
    by (simp add: length_pta_rsi length_closes)
  then have "map fst (zip df (pta_rsi (closes df) 14)) = df"
    by simp
  moreover have "map fst (RSI_frame df) = map fst (map fst (zip df (pta_rsi (closes df) 14)))"
    by (simp add: RSI_frame_def case_prod_unfold)
  ultimately show ?thesis
    by simp
qed

text \<open>
  The trace that the RSI chart draws: whenever the window keeps the latest bar, the last
  defined value of the trace is the RSI that the alert reads. The five windows that go back
  from the latest date always keep it.
\<close>

lemma RSI_chart_last_defined:
  assumes "df \<noteq> []" and "cutoff (fst (hd df)) (fst (last df)) num_period < fst (last df)"
  shows "\<exists>xs ys. RSI df num_period False = Inr (Figure xs ys)
                \<and> last_defined ys = current_rsi df num_period"
proof -
  let ?F = "RSI_frame df"
  have ne: "?F \<noteq> []"
    using assms(1) RSI_frame_dates [of df] by (metis map_is_Nil_conv)
  have "fst (hd ?F) = hd (map fst ?F)" and "fst (last ?F) = last (map fst ?F)"
    using ne by (simp_all add: hd_map last_map)
  then have hl: "fst (hd ?F) = fst (hd df)" "fst (last ?F) = fst (last df)"
    using assms(1) by (simp_all add: RSI_frame_dates hd_map last_map)
  let ?P = "\<lambda>row. cutoff (fst (hd df)) (fst (last df)) num_period < fst row"
  have f: "filter_data ?F num_period = Inr (filter ?P ?F)"
    using ne by (simp add: filter_data_def hl)
  obtain k zs where s: "pta_rsi (closes df) 14 = replicate k None @ map Some zs"
    using pta_rsi_shape by blast
  have col: "map (\<lambda>row. snd (snd row)) ?F = replicate k None @ map Some zs"
    using RSI_column_frame [of df] s by (simp add: RSI_column_def)
  have "?P (last ?F)"
    using assms(2) hl by simp
  then have "last_defined (map (\<lambda>row. snd (snd row)) (filter ?P ?F))
             = last_defined (map (\<lambda>row. snd (snd row)) ?F)"
    using col ne by (rule last_defined_window [rotated 2])
  also have "\<dots> = last_defined (RSI_column ?F)"
    by (simp add: RSI_column_def)
  also have "\<dots> = current_rsi df num_period"
  proof -
    have "pta_rsi (closes df) 14 \<noteq> []"
      using assms(1) length_pta_rsi [of 14 "closes df"] length_closes [of df]
      by (metis length_0_conv zero_less_numeral)
    then have "current_rsi df num_period = last (pta_rsi (closes df) 14)"
      using assms(1) by (simp add: current_rsi_eq)
    also have "\<dots> = (if pta_rsi (closes df) 14 = [] then None else last (pta_rsi (closes df) 14))"
      using \<open>pta_rsi (closes df) 14 \<noteq> []\<close> by simp
    also have "\<dots> = last_defined (pta_rsi (closes df) 14)"
      unfolding s by (simp only: last_shape last_defined_shape)
    finally show ?thesis
      by (simp add: RSI_column_frame)
  qed
  finally have "last_defined (RSI_column (filter ?P ?F)) = current_rsi df num_period"
    by (simp add: RSI_column_def)
  then show ?thesis
    using f by (simp add: RSI_def)
qed

lemma ytd_cutoff_before_latest:
  assumes "1 \<le> m" and "1 \<le> d"
  shows "cutoff first (y, m, d) ''ytd'' < (y, m, d) \<longleftrightarrow> \<not> (m = 1 \<and> d = 1)"
  using assms by (auto simp: cutoff_def)

lemma whole_history_cutoff_before_latest:
  assumes "price_series df" and "2 \<le> length df"
    and "num_period \<notin> {''1mo'', ''5d'', ''6mo'', ''1y'', ''5y'', ''ytd''}"
  shows "cutoff (fst (hd df)) (fst (last df)) num_period < fst (last df)"
proof -
  have ne: "df \<noteq> []"
    using assms(2) by auto
  have c: "cutoff (fst (hd df)) (fst (last df)) num_period = fst (hd df)"
    using assms(3) by (auto simp: cutoff_def)
  have "sorted_wrt (<) (map fst df)"
    using assms(1) by (simp add: price_series_def)
  then have "map fst df ! 0 < map fst df ! (length df - 1)"
    using sorted_wrt_nth_less [of "(<)" "map fst df" 0 "length df - 1"] assms(2) by simp
  moreover have "map fst df ! 0 = fst (hd df)"
    using ne by (simp add: hd_conv_nth)
  moreover have "map fst df ! (length df - 1) = fst (last df)"
    using ne by (simp add: last_conv_nth)
  ultimately show ?thesis
    using c by simp
qed

lemma pta_rsi_short:
  assumes "0 < len" and "length cs \<le> len"
  shows "pta_rsi cs len = replicate (length cs) None"
proof -
  have "length (up_moves cs) < len"
    using assms by (simp add: length_up_moves)
  then have "smoothed_avg len (up_moves cs) = []"
    by (simp add: smoothed_avg_def)
  then show ?thesis
    using assms(2) by (simp add: pta_rsi_def min_def)
qed

lemma RSI_chart_figure:
  assumes "df \<noteq> []"
  shows "RSI df num_period False
         = Inr (Figure
                 (map fst (filter (\<lambda>row. cutoff (fst (hd df)) (fst (last df)) num_period < fst row)
                             (RSI_frame df)))
                 (RSI_column (filter (\<lambda>row. cutoff (fst (hd df)) (fst (last df)) num_period < fst row)
                             (RSI_frame df))))"
proof -
  let ?F = "RSI_frame df"
  have ne: "?F \<noteq> []"
    using assms RSI_frame_dates [of df] by (metis map_is_Nil_conv)
  have "fst (hd ?F) = hd (map fst ?F)" and "fst (last ?F) = last (map fst ?F)"
    using ne by (simp_all add: hd_map last_map)
  then have "fst (hd ?F) = fst (hd df)" and "fst (last ?F) = fst (last df)"
    using assms by (simp_all add: RSI_frame_dates hd_map last_map)
  then have "filter_data ?F num_period
             = Inr (filter (\<lambda>row. cutoff (fst (hd df)) (fst (last df)) num_period < fst row) ?F)"
    using ne by (simp add: filter_data_def)
  then show ?thesis
    by (simp add: RSI_def)
qed

lemma charted_rsi_short:
  assumes "length df < 15"
  shows "charted_rsi df num_period = None \<and> current_rsi df num_period = None"
proof (cases "df = []")
  case True
  then show ?thesis
    by (simp add: charted_rsi_def current_rsi_eq RSI_def RSI_frame_def filter_data_def)
next
  case False
  let ?P = "\<lambda>row. cutoff (fst (hd df)) (fst (last df)) num_period < fst row"
  have s: "pta_rsi (closes df) 14 = replicate (length df) None"
    using assms pta_rsi_short [of 14 "closes df"] by (simp add: length_closes)
  then have "set (RSI_column (RSI_frame df)) \<subseteq> {None}"
    by (simp only: RSI_column_frame) auto
  moreover have "set (RSI_column (filter ?P (RSI_frame df))) \<subseteq> set (RSI_column (RSI_frame df))"
    by (auto simp: RSI_column_def)
  ultimately have "last_defined (RSI_column (filter ?P (RSI_frame df))) = None"
    by (metis last_defined_undefined subset_trans)
  then have a: "charted_rsi df num_period = None"
    using False by (simp add: charted_rsi_def RSI_chart_figure)
  have "last (replicate (length df) (None :: real option)) = None"
    using False by simp
  then have "current_rsi df num_period = None"
    using False by (simp add: current_rsi_eq s)
  then show ?thesis
    using a by simp
qed

text \<open>
  The condition cannot be dropped: on a price series of at least 15 bars whose window keeps
  no bar, the chart has no RSI value while the alert reads a defined one.
\<close>

lemma charted_rsi_window_empty:
  assumes "price_series df" and "15 \<le> length df"
    and "\<not> cutoff (fst (hd df)) (fst (last df)) num_period < fst (last df)"
  shows "charted_rsi df num_period = None \<and> current_rsi df num_period \<noteq> None"
proof -
  let ?c = "cutoff (fst (hd df)) (fst (last df)) num_period"
  have ne: "df \<noteq> []"
    using assms(2) by auto
  have srt: "sorted (map fst df)"
    using assms(1) by (simp add: price_series_def strict_sorted_imp_sorted)
  have le: "fst row \<le> ?c" if "row \<in> set (RSI_frame df)" for row
  proof -
    have "fst row \<in> set (map fst df)"
      using that RSI_frame_dates [of df] by (metis image_eqI set_map)
    then have "fst row \<le> last (map fst df)"
      using srt by (rule sorted_le_last [rotated])
    then have "fst row \<le> fst (last df)"
      using ne by (simp add: last_map)
    then show ?thesis
      using assms(3) by simp
  qed
  have "\<forall>row \<in> set (RSI_frame df). \<not> ?c < fst row"
  proof
    fix row
    assume "row \<in> set (RSI_frame df)"
    then have "fst row \<le> ?c"
      by (rule le)
    then show "\<not> ?c < fst row"
      by (simp only: not_less)
  qed
  then have "filter (\<lambda>row. ?c < fst row) (RSI_frame df) = []"
    by (simp only: filter_empty_conv)
  then have a: "charted_rsi df num_period = None"
    using ne by (simp add: charted_rsi_def RSI_chart_figure RSI_column_def last_defined_def)
  have "length df - 1 < length (closes df)" and "14 \<le> length df - 1"
    using assms(2) by (simp_all add: length_closes)
  then have "\<exists>r. pta_rsi (closes df) 14 ! (length df - 1) = Some r"
    using pta_rsi_defined [of 14 "length df - 1" "closes df"] by simp
  moreover have "last (pta_rsi (closes df) 14) = pta_rsi (closes df) 14 ! (length df - 1)"
    using ne length_pta_rsi [of 14 "closes df"] length_closes [of df]
    by (metis last_conv_nth length_0_conv zero_less_numeral)
  ultimately have "current_rsi df num_period \<noteq> None"
    using ne by (auto simp: current_rsi_eq)
  then show ?thesis
    using a by simp
qed

text \<open>
  C1 (as amended). For every price series and every window tag whose window keeps the
  latest bar (the cutoff lies strictly before the latest date), and for every series too
  short to have a defined RSI (fewer than 15 bars), the RSI that decides the alert, the
  last value of the series that RSI returns with return_series=True, equals the last
  defined value of the RSI(14) trace that RSI computes for the chart on the same series
  with the same length; on a series that has bars the chart is returned.
\<close>

theorem C1_alert_rsi_is_chart_rsi:
  assumes "cutoff (fst (hd df)) (fst (last df)) num_period < fst (last df) \<or> length df < 15"
  shows "charted_rsi df num_period = current_rsi df num_period
         \<and> (df \<noteq> [] \<longrightarrow>
              (\<exists>xs ys. RSI df num_period False = Inr (Figure xs ys)
                       \<and> last_defined ys = current_rsi df num_period))"
proof (cases "length df < 15")
  case True
  have e: "charted_rsi df num_period = current_rsi df num_period"
    using charted_rsi_short [OF True] by simp
  have "\<exists>xs ys. RSI df num_period False = Inr (Figure xs ys)
                \<and> last_defined ys = current_rsi df num_period" if "df \<noteq> []"
    using e RSI_chart_figure [OF that, of num_period] by (simp add: charted_rsi_def)
  then show ?thesis
    using e by blast
next
  case False
  then have ne: "df \<noteq> []"
    by auto
  have c: "cutoff (fst (hd df)) (fst (last df)) num_period < fst (last df)"
    using assms False by blast
  obtain xs ys where f: "RSI df num_period False = Inr (Figure xs ys)"
    and l: "last_defined ys = current_rsi df num_period"
    using RSI_chart_last_defined [OF ne c] by blast
  then have "charted_rsi df num_period = current_rsi df num_period"
    by (simp add: charted_rsi_def)
  then show ?thesis
    using f l by blast
qed

theorem C1_alert_rsi_is_chart_rsi_witness:
  "charted_rsi rising_20 ''5d'' = current_rsi rising_20 ''5d''
   \<and> current_rsi rising_20 ''5d'' = Some 100
   \<and> RSI rising_20 ''5d'' False
       = Inr (Figure [(2024, 3, 16), (2024, 3, 17), (2024, 3, 18), (2024, 3, 19), (2024, 3, 20)]
                     [Some 100, Some 100, Some 100, Some 100, Some 100])"
proof -
  have c: "cutoff (fst (hd rising_20)) (fst (last rising_20)) ''5d'' < fst (last rising_20)"
    by code_simp
  have v: "current_rsi rising_20 ''5d'' = Some 100"
    by code_simp
  have f: "RSI rising_20 ''5d'' False
       = Inr (Figure [(2024, 3, 16), (2024, 3, 17), (2024, 3, 18), (2024, 3, 19), (2024, 3, 20)]
                     [Some 100, Some 100, Some 100, Some 100, Some 100])"
    by code_simp
  have "charted_rsi rising_20 ''5d'' = current_rsi rising_20 ''5d''"
    using C1_alert_rsi_is_chart_rsi [of rising_20 "''5d''"] c by blast
  then show ?thesis
    using v f by simp
qed

text \<open>
  The claim as first stated, for every window tag, fails: the year-to-date window on a
  price series whose latest bar is dated 1 January keeps no bar, so the chart has an empty
  trace and no RSI value, while the alert reads the defined RSI 100.
\<close>

theorem C1_chart_empty_on_new_year:
  "price_series new_year_16
   \<and> RSI new_year_16 ''ytd'' False = Inr (Figure [] [])
   \<and> charted_rsi new_year_16 ''ytd'' = None
   \<and> current_rsi new_year_16 ''ytd'' = Some 100
   \<and> charted_rsi new_year_16 ''ytd'' \<noteq> current_rsi new_year_16 ''ytd''"
proof -
  have p: "price_series new_year_16"
    by code_simp
  have f: "RSI new_year_16 ''ytd'' False = Inr (Figure [] [])"
    by code_simp
  have a: "charted_rsi new_year_16 ''ytd'' = None"
    by (simp add: charted_rsi_def f last_defined_def)
  have b: "current_rsi new_year_16 ''ytd'' = Some 100"
    by code_simp
  show ?thesis
    using p f a b by simp
qed

end
